theory Spec2Isabelle
  imports Complex_Main
begin

section \<open>Execution metrics of the career planning agent (observability.py)\<close>

text \<open>
  The embedding follows \<^verbatim>\<open>src/observability.py\<close>: the dataclasses
  \<^verbatim>\<open>ExecutionMetrics\<close> and \<^verbatim>\<open>WorkflowMetrics\<close> and the class
  \<^verbatim>\<open>MetricsCollector\<close>.

  Modelling decisions.
  \<^item> A \<^verbatim>\<open>datetime\<close> is the integer number of microseconds since a fixed origin
    (the resolution of Python's \<^verbatim>\<open>datetime\<close>); the difference of two of them is a
    \<^verbatim>\<open>timedelta\<close>, again a number of microseconds, and \<^verbatim>\<open>total_seconds()\<close> divides it
    by \<open>10^6\<close>.
  \<^item> A Python \<^verbatim>\<open>float\<close> is the \<open>real\<close> number it stands for. The efficiency of a
    workflow is modelled twice: \<open>get_parallel_efficiency\<close> evaluates the formula of the
    method in exact arithmetic, \<open>get_parallel_efficiency_double\<close> rounds every operation
    to a double, as the interpreter does, and is what the serialised workflow holds. The
    single division of \<^verbatim>\<open>total_seconds()\<close> is exact. The float operation that raises,
    division by zero, is a branch of the model; infinities and NaN are outside it.
  \<^item> A Python \<^verbatim>\<open>int\<close> is an \<open>int\<close>.
  \<^item> Methods that mutate \<^verbatim>\<open>self\<close> return the updated object; the clock reading
    \<^verbatim>\<open>datetime.now()\<close> is an argument. Logging is left out.
  \<^item> The dictionaries built by \<^verbatim>\<open>to_dict\<close> and \<^verbatim>\<open>get_summary\<close> are values of a
    JSON-like datatype, with the keys in the order of the dict literal.
    \<^verbatim>\<open>datetime.isoformat\<close> belongs to the standard library and is an argument \<open>isoformat\<close>.
\<close>

subsection \<open>Values, errors, time\<close>

datatype py_error = ZeroDivisionError | ValueError

type_synonym datetime = int

type_synonym timedelta = int

definition total_seconds :: "timedelta \<Rightarrow> real" where
  "total_seconds td = real_of_int td / 1000000"

text \<open>True division of floats: \<^verbatim>\<open>a / b\<close> raises when \<^verbatim>\<open>b == 0\<close>.\<close>

definition py_truediv :: "real \<Rightarrow> real \<Rightarrow> py_error + real" where
  "py_truediv a b = (if b = 0 then Inl ZeroDivisionError else Inr (a / b))"

text \<open>
  The builtin \<^verbatim>\<open>max\<close> over an iterable: it raises \<^verbatim>\<open>ValueError\<close> on an empty one and
  otherwise keeps the first item, replacing it by each later item that is greater.
\<close>

definition py_max :: "real list \<Rightarrow> py_error + real" where
  "py_max xs =
     (case xs of
        [] \<Rightarrow> Inl ValueError
      | x # rest \<Rightarrow> Inr (foldl (\<lambda>m item. if item > m then item else m) x rest))"

subsection \<open>Double-precision arithmetic\<close>

text \<open>
  A Python \<^verbatim>\<open>float\<close> is an IEEE 754 double: every arithmetic operation returns the
  exact result rounded to the nearest number with 53 significant bits, a tie going to the
  even one. \<open>bit_length n\<close> is the number of binary digits of \<open>n\<close>; \<open>exponent x\<close> is the
  integer \<open>e\<close> with \<open>2^e \<le> |x| < 2^(e+1)\<close>, so that the doubles around \<open>x\<close> are the
  multiples of \<open>2^(e-52)\<close>. The exponent is not bounded here: overflow, underflow,
  infinities and NaN are outside the model.
\<close>

fun bit_length :: "nat \<Rightarrow> nat" where
  "bit_length n = (if n = 0 then 0 else Suc (bit_length (n div 2)))"

declare bit_length.simps [simp del]

definition pow2 :: "int \<Rightarrow> real" where
  "pow2 k = (if 0 \<le> k then 2 ^ nat k else 1 / 2 ^ nat (- k))"

definition exponent :: "real \<Rightarrow> int" where
  "exponent x =
     (if 1 \<le> \<bar>x\<bar> then int (bit_length (nat \<lfloor>\<bar>x\<bar>\<rfloor>)) - 1
      else - int (bit_length (nat (\<lceil>1 / \<bar>x\<bar>\<rceil> - 1))))"

definition round_half_even :: "real \<Rightarrow> int" where
  "round_half_even x =
     (let f = \<lfloor>x\<rfloor>; r = x - of_int f
      in if r < 1 / 2 then f
         else if 1 / 2 < r then f + 1
         else if even f then f else f + 1)"

definition round_double :: "real \<Rightarrow> real" where
  "round_double x =
     (if x = 0 then 0
      else of_int (round_half_even (x / pow2 (exponent x - 52))) * pow2 (exponent x - 52))"

text \<open>
  Float addition, multiplication and true division. An \<^verbatim>\<open>int\<close> operand (the length of a
  list, the constant \<^verbatim>\<open>100\<close>) is converted to the float of the same value first.
\<close>

definition fadd :: "real \<Rightarrow> real \<Rightarrow> real" where
  "fadd a b = round_double (a + b)"

definition fmul :: "real \<Rightarrow> real \<Rightarrow> real" where
  "fmul a b = round_double (a * b)"

definition fdiv :: "real \<Rightarrow> real \<Rightarrow> py_error + real" where
  "fdiv a b = (if b = 0 then Inl ZeroDivisionError else Inr (round_double (a / b)))"

text \<open>
  The builtin \<^verbatim>\<open>sum\<close> over floats: it starts from the integer \<^verbatim>\<open>0\<close> and adds the items
  from left to right, rounding every partial sum (the interpreters the program asks for,
  from Python 3.8 on, do so up to version 3.11; later ones compensate the rounding error).
\<close>

definition fsum :: "real list \<Rightarrow> real" where
  "fsum xs = foldl fadd 0 xs"

subsection \<open>Dictionaries\<close>

datatype json =
    JNull
  | JBool bool
  | JInt int
  | JFloat real
  | JStr string
  | JList "json list"
  | JDict "(string \<times> json) list"

text \<open>Reading a key of a dictionary: the value of its first entry with that key.\<close>

fun field :: "string \<Rightarrow> json \<Rightarrow> json option" where
  "field k (JDict kvs) = map_of kvs k"
| "field k _ = None"

subsection \<open>AgentType and ExecutionMetrics\<close>

datatype AgentType = SERIAL | PARALLEL | COORDINATOR

fun agent_type_value :: "AgentType \<Rightarrow> string" where
  "agent_type_value SERIAL = ''serial''"
| "agent_type_value PARALLEL = ''parallel''"
| "agent_type_value COORDINATOR = ''coordinator''"

record ExecutionMetrics =
  agent_name :: string
  agent_type :: AgentType
  start_time :: datetime
  end_time :: "datetime option"
  duration :: real
  success :: bool
  error_message :: string
  inputs_size :: int
  outputs_size :: int

text \<open>
  \<^verbatim>\<open>calculate_duration\<close>: a \<^verbatim>\<open>datetime\<close> is always truthy, so \<^verbatim>\<open>if self.end_time\<close> tests
  that the field is not \<^verbatim>\<open>None\<close>. The result is the returned duration and the updated
  record.
\<close>

definition calculate_duration :: "ExecutionMetrics \<Rightarrow> real \<times> ExecutionMetrics" where
  "calculate_duration self =
     (let self' = (case end_time self of
                     None \<Rightarrow> self
                   | Some e \<Rightarrow> self\<lparr>duration := total_seconds (e - start_time self)\<rparr>)
      in (duration self', self'))"

definition optional_iso :: "(datetime \<Rightarrow> string) \<Rightarrow> datetime option \<Rightarrow> json" where
  "optional_iso isoformat t = (case t of None \<Rightarrow> JNull | Some e \<Rightarrow> JStr (isoformat e))"

definition to_dict :: "(datetime \<Rightarrow> string) \<Rightarrow> ExecutionMetrics \<Rightarrow> json" where
  "to_dict isoformat self = JDict
     [(''agent_name'', JStr (agent_name self)),
      (''agent_type'', JStr (agent_type_value (agent_type self))),
      (''start_time'', JStr (isoformat (start_time self))),
      (''end_time'', optional_iso isoformat (end_time self)),
      (''duration_seconds'', JFloat (duration self)),
      (''success'', JBool (success self)),
      (''error_message'', JStr (error_message self)),
      (''inputs_size_bytes'', JInt (inputs_size self)),
      (''outputs_size_bytes'', JInt (outputs_size self))]"

subsection \<open>WorkflowMetrics\<close>

text \<open>
  The fields \<^verbatim>\<open>start_time\<close>, \<^verbatim>\<open>end_time\<close>, \<^verbatim>\<open>duration\<close>, \<^verbatim>\<open>success\<close> and
  \<^verbatim>\<open>error_message\<close> of the workflow carry the prefix \<open>wf_\<close>, the names being taken by
  the record above.
\<close>

record WorkflowMetrics =
  workflow_name :: string
  wf_start_time :: datetime
  wf_end_time :: "datetime option"
  wf_duration :: real
  agents :: "ExecutionMetrics list"
  total_inputs_size :: int
  total_outputs_size :: int
  wf_success :: bool
  wf_error_message :: string

definition add_agent_metrics :: "WorkflowMetrics \<Rightarrow> ExecutionMetrics \<Rightarrow> WorkflowMetrics" where
  "add_agent_metrics self metrics =
     self\<lparr>agents := agents self @ [metrics],
          total_inputs_size := total_inputs_size self + inputs_size metrics,
          total_outputs_size := total_outputs_size self + outputs_size metrics\<rparr>"

definition finalize :: "WorkflowMetrics \<Rightarrow> WorkflowMetrics" where
  "finalize self =
     (case wf_end_time self of
        None \<Rightarrow> self
      | Some e \<Rightarrow> self\<lparr>wf_duration := total_seconds (e - wf_start_time self)\<rparr>)"

definition get_parallel_efficiency :: "WorkflowMetrics \<Rightarrow> py_error + real" where
  "get_parallel_efficiency self =
     (if agents self = [] then Inr 0
      else
        (case py_max (map duration (agents self)) of
           Inl e \<Rightarrow> Inl e
         | Inr max_agent_duration \<Rightarrow>
             (let total_agent_duration = sum_list (map duration (agents self)) in
              if total_agent_duration = 0 then Inr 0
              else
                (case py_truediv total_agent_duration
                        (max_agent_duration * real (length (agents self))) of
                   Inl e \<Rightarrow> Inl e
                 | Inr q \<Rightarrow> Inr (q * 100)))))"

text \<open>
  The same method with the arithmetic of the interpreter: the control flow is that of
  \<open>get_parallel_efficiency\<close>, and every sum, product and quotient is rounded to a double.
  This is the value the method returns; \<open>get_parallel_efficiency\<close> is the value of its
  formula in exact arithmetic.
\<close>

definition get_parallel_efficiency_double :: "WorkflowMetrics \<Rightarrow> py_error + real" where
  "get_parallel_efficiency_double self =
     (if agents self = [] then Inr 0
      else
        (case py_max (map duration (agents self)) of
           Inl e \<Rightarrow> Inl e
         | Inr max_agent_duration \<Rightarrow>
             (let total_agent_duration = fsum (map duration (agents self)) in
              if total_agent_duration = 0 then Inr 0
              else
                (case fdiv total_agent_duration
                        (fmul max_agent_duration (real (length (agents self)))) of
                   Inl e \<Rightarrow> Inl e
                 | Inr q \<Rightarrow> Inr (fmul q 100)))))"

definition wf_to_dict :: "(datetime \<Rightarrow> string) \<Rightarrow> WorkflowMetrics \<Rightarrow> py_error + json" where
  "wf_to_dict isoformat self =
     (case get_parallel_efficiency_double self of
        Inl e \<Rightarrow> Inl e
      | Inr eff \<Rightarrow> Inr (JDict
          [(''workflow_name'', JStr (workflow_name self)),
           (''start_time'', JStr (isoformat (wf_start_time self))),
           (''end_time'', optional_iso isoformat (wf_end_time self)),
           (''total_duration_seconds'', JFloat (wf_duration self)),
           (''agents'', JList (map (to_dict isoformat) (agents self))),
           (''total_inputs_size_bytes'', JInt (total_inputs_size self)),
           (''total_outputs_size_bytes'', JInt (total_outputs_size self)),
           (''workflow_success'', JBool (wf_success self)),
           (''error_message'', JStr (wf_error_message self)),
           (''parallel_efficiency_percent'', JFloat eff)]))"

subsection \<open>MetricsCollector\<close>

record MetricsCollector =
  workflows :: "WorkflowMetrics list"

definition init_collector :: MetricsCollector where
  "init_collector = \<lparr>workflows = []\<rparr>"

definition create_workflow :: "datetime \<Rightarrow> string \<Rightarrow> WorkflowMetrics" where
  "create_workflow now name =
     \<lparr>workflow_name = name, wf_start_time = now, wf_end_time = None, wf_duration = 0,
      agents = [], total_inputs_size = 0, total_outputs_size = 0, wf_success = True,
      wf_error_message = ''''\<rparr>"

text \<open>
  \<^verbatim>\<open>finalize_workflow\<close> mutates both the workflow and the collector: the result is the
  updated collector and the updated workflow, which is the object appended.
\<close>

definition finalize_workflow ::
  "datetime \<Rightarrow> MetricsCollector \<Rightarrow> WorkflowMetrics \<Rightarrow> MetricsCollector \<times> WorkflowMetrics" where
  "finalize_workflow now self workflow =
     (let w1 = workflow\<lparr>wf_end_time := Some now\<rparr>;
          w2 = finalize w1
      in (self\<lparr>workflows := workflows self @ [w2]\<rparr>, w2))"

text \<open>
  A list comprehension whose element expression may raise: the first exception ends it.
\<close>

fun comprehension :: "('a \<Rightarrow> py_error + 'b) \<Rightarrow> 'a list \<Rightarrow> py_error + 'b list" where
  "comprehension f [] = Inr []"
| "comprehension f (x # xs) =
     (case f x of
        Inl e \<Rightarrow> Inl e
      | Inr y \<Rightarrow> (case comprehension f xs of Inl e \<Rightarrow> Inl e | Inr ys \<Rightarrow> Inr (y # ys)))"

text \<open>
  \<^verbatim>\<open>get_summary\<close> reads the collector and changes nothing: the result is the outcome
  (the dictionary, or the exception raised while serialising a workflow) and the collector
  after the call. The first three entries of the dict literal cannot raise. The sum of the
  durations of no workflows is the integer \<^verbatim>\<open>0\<close> the builtin starts from; of one or
  more workflows it is a float.
\<close>

definition get_summary ::
  "(datetime \<Rightarrow> string) \<Rightarrow> MetricsCollector \<Rightarrow> (py_error + json) \<times> MetricsCollector" where
  "get_summary isoformat self =
     ((case comprehension (wf_to_dict isoformat) (workflows self) of
         Inl e \<Rightarrow> Inl e
       | Inr ds \<Rightarrow> Inr (JDict
           [(''total_workflows'', JInt (int (length (workflows self)))),
            (''total_agents_executed'',
               JInt (sum_list (map (\<lambda>w. int (length (agents w))) (workflows self)))),
            (''total_time'',
               (if workflows self = [] then JInt 0
                else JFloat (fsum (map wf_duration (workflows self))))),
            (''workflows'', JList ds)])),
      self)"

subsection \<open>Fixtures\<close>

text \<open>
  Concrete objects in the manner of \<^verbatim>\<open>src/test_suite.py\<close>: an agent record with a
  given duration and sizes, and a workflow created at time \<open>0\<close> to which records are added
  one after the other.
\<close>

definition sample_agent :: "real \<Rightarrow> int \<Rightarrow> int \<Rightarrow> ExecutionMetrics" where
  "sample_agent d n_in n_out =
     \<lparr>agent_name = ''Parallel Agent'', agent_type = PARALLEL, start_time = 0,
      end_time = Some 2000000, duration = d, success = True, error_message = '''',
      inputs_size = n_in, outputs_size = n_out\<rparr>"

definition sample_workflow :: "ExecutionMetrics list \<Rightarrow> WorkflowMetrics" where
  "sample_workflow ms = foldl add_agent_metrics (create_workflow 0 ''Test Workflow'') ms"

text \<open>A record whose clock went backwards: it ends two seconds before it starts.\<close>

definition backwards_agent :: ExecutionMetrics where
  "backwards_agent =
     \<lparr>agent_name = ''Agent 1'', agent_type = SERIAL, start_time = 5000000,
      end_time = Some 3000000, duration = 0, success = True, error_message = '''',
      inputs_size = 0, outputs_size = 0\<rparr>"

text \<open>
  A workflow created at time \<open>0\<close> and finalized at second 5, with no records; a collector
  holding one finalized workflow whose two records have non-negative durations; a collector
  holding one whose records have durations \<open>0\<close> and \<open>-1\<close>; and a stand-in for
  \<^verbatim>\<open>isoformat\<close>.
\<close>

definition finalized_workflow :: WorkflowMetrics where
  "finalized_workflow =
     snd (finalize_workflow 5000000 init_collector (create_workflow 0 ''Test''))"

definition sample_collector :: MetricsCollector where
  "sample_collector =
     fst (finalize_workflow 5000000 init_collector
            (sample_workflow [sample_agent 1 100 200, sample_agent 3 200 400]))"

definition failing_collector :: MetricsCollector where
  "failing_collector =
     fst (finalize_workflow 5000000 init_collector
            (sample_workflow [sample_agent 0 0 0, sample_agent (- 1) 0 0]))"

definition no_format :: "datetime \<Rightarrow> string" where
  "no_format t = ''''"



section \<open>Auxiliary facts\<close>

subsection \<open>The builtin maximum and the sum of a list\<close>

lemma foldl_pick_max:
  fixes x :: real
  shows "foldl (\<lambda>m item. if item > m then item else m) x rest = Max (set (x # rest))"
proof -
  have "(\<lambda>m item. if item > m then item else m) = (\<lambda>m item::real. max item m)"
    by (auto simp: fun_eq_iff)
  then have "foldl (\<lambda>m item. if item > m then item else m) x rest = fold max rest x"
    by (simp add: foldl_conv_fold)
  also have "\<dots> = Max (set (x # rest))" by (simp only: Max.set_eq_fold)
  finally show ?thesis .
qed

lemma py_max_eq: "xs \<noteq> [] \<Longrightarrow> py_max xs = Inr (Max (set xs))"
  unfolding py_max_def by (cases xs) (simp_all only: list.case foldl_pick_max, simp)




subsection \<open>The three outcomes of the efficiency computation\<close>

lemma efficiency_unfold:
  assumes "agents w \<noteq> []"
  shows "get_parallel_efficiency w =
    (if sum_list (map duration (agents w)) = 0 then Inr 0
     else if Max (set (map duration (agents w))) = 0 then Inl ZeroDivisionError
     else Inr (sum_list (map duration (agents w)) /
               (Max (set (map duration (agents w))) * real (length (agents w))) * 100))"
proof -
  have "py_max (map duration (agents w)) = Inr (Max (set (map duration (agents w))))"
    using assms by (simp add: py_max_eq)
  then show ?thesis
    using assms by (simp add: get_parallel_efficiency_def py_truediv_def Let_def)
qed



subsection \<open>Adding records and finalizing\<close>

lemma foldl_add_agent_metrics:
  "agents (foldl add_agent_metrics w ms) = agents w @ ms \<and>
   total_inputs_size (foldl add_agent_metrics w ms) =
     total_inputs_size w + sum_list (map inputs_size ms) \<and>
   total_outputs_size (foldl add_agent_metrics w ms) =
     total_outputs_size w + sum_list (map outputs_size ms)"
  by (induction ms arbitrary: w) (simp_all add: add_agent_metrics_def)

lemma finalize_workflow_result:
  "finalize_workflow now c w =
     (c\<lparr>workflows := workflows c @
          [w\<lparr>wf_end_time := Some now,
             wf_duration := total_seconds (now - wf_start_time w)\<rparr>]\<rparr>,
      w\<lparr>wf_end_time := Some now, wf_duration := total_seconds (now - wf_start_time w)\<rparr>)"
  by (simp add: finalize_workflow_def finalize_def Let_def)

lemma foldl_finalize_workflow:
  "workflows (foldl (\<lambda>c (now, w). fst (finalize_workflow now c w)) c nws) =
     workflows c @ map (\<lambda>(now, w). snd (finalize_workflow now c0 w)) nws"
  by (induction nws arbitrary: c) (auto simp: finalize_workflow_result)

subsection \<open>Rounding to a double\<close>

lemma bit_length_0: "bit_length 0 = 0"
  by (subst bit_length.simps) simp

lemma bit_length_upper: "n < 2 ^ bit_length n"
proof (induction n rule: bit_length.induct)
  case (1 n)
  show ?case
  proof (cases "n = 0")
    case True
    then show ?thesis by simp
  next
    case False
    then have "n div 2 < 2 ^ bit_length (n div 2)" using "1" by simp
    then have "n < 2 * 2 ^ bit_length (n div 2)" by linarith
    moreover have "bit_length n = Suc (bit_length (n div 2))"
      using False by (subst bit_length.simps) simp
    ultimately show ?thesis by simp
  qed
qed

lemma bit_length_lower: "0 < n \<Longrightarrow> 2 ^ (bit_length n - 1) \<le> n"
proof (induction n rule: bit_length.induct)
  case (1 n)
  then have n: "n \<noteq> 0" by simp
  have step: "bit_length n = Suc (bit_length (n div 2))"
    using n by (subst bit_length.simps) simp
  show ?case
  proof (cases "n div 2 = 0")
    case True
    then have "bit_length (n div 2) = 0" by (simp add: bit_length_0)
    then show ?thesis using step n by simp
  next
    case False
    then have ih: "2 ^ (bit_length (n div 2) - 1) \<le> n div 2" using "1.IH" n by simp
    have "0 < bit_length (n div 2)"
      using False by (subst bit_length.simps) simp
    then have "(2::nat) ^ bit_length (n div 2) = 2 * 2 ^ (bit_length (n div 2) - 1)"
      by (cases "bit_length (n div 2)") simp_all
    then have "(2::nat) ^ bit_length (n div 2) \<le> n" using ih by linarith
    then show ?thesis using step by simp
  qed
qed

lemma pow2_pos: "0 < pow2 k"
  by (simp add: pow2_def)

lemma pow2_mono:
  assumes "j \<le> k"
  shows "pow2 j \<le> pow2 k"
proof -
  consider "0 \<le> j" | "j < 0" "0 \<le> k" | "k < 0" by linarith
  then show ?thesis
  proof cases
    case 1
    then have "(2::real) ^ nat j \<le> 2 ^ nat k" using assms by (intro power_increasing) simp_all
    then show ?thesis using 1 assms by (simp add: pow2_def)
  next
    case 2
    have "1 / (2::real) ^ nat (- j) \<le> 1" by simp
    also have "\<dots> \<le> 2 ^ nat k" by simp
    finally show ?thesis using 2 by (simp add: pow2_def)
  next
    case 3
    then have "(2::real) ^ nat (- k) \<le> 2 ^ nat (- j)"
      using assms by (intro power_increasing) simp_all
    then have "1 / (2::real) ^ nat (- j) \<le> 1 / 2 ^ nat (- k)"
      by (simp add: frac_le)
    then show ?thesis using 3 assms by (simp add: pow2_def)
  qed
qed

lemma pow2_exponent_le:
  assumes "x \<noteq> 0"
  shows "pow2 (exponent x) \<le> \<bar>x\<bar>"
proof (cases "1 \<le> \<bar>x\<bar>")
  case True
  let ?n = "nat \<lfloor>\<bar>x\<bar>\<rfloor>"
  have n: "0 < ?n" using True by simp
  then have b: "0 < bit_length ?n" by (subst bit_length.simps) simp
  have "2 ^ (bit_length ?n - 1) \<le> ?n" using n by (rule bit_length_lower)
  then have "(2::real) ^ (bit_length ?n - 1) \<le> real ?n"
    by (metis of_nat_le_iff of_nat_numeral of_nat_power)
  also have "\<dots> \<le> \<bar>x\<bar>" using True by simp
  finally have "(2::real) ^ (bit_length ?n - 1) \<le> \<bar>x\<bar>" .
  moreover have "exponent x = int (bit_length ?n - 1)"
    using True b by (simp add: exponent_def)
  ultimately show ?thesis by (simp add: pow2_def)
next
  case False
  let ?m = "nat (\<lceil>1 / \<bar>x\<bar>\<rceil> - 1)"
  have x: "0 < \<bar>x\<bar>" "\<bar>x\<bar> < 1" using assms False by simp_all
  then have "1 < 1 / \<bar>x\<bar>" by simp
  then have c: "1 < \<lceil>1 / \<bar>x\<bar>\<rceil>" by linarith
  have "?m < 2 ^ bit_length ?m" by (rule bit_length_upper)
  then have "int ?m < 2 ^ bit_length ?m"
    by (metis of_nat_less_iff of_nat_numeral of_nat_power)
  moreover have "int ?m = \<lceil>1 / \<bar>x\<bar>\<rceil> - 1" using c by linarith
  ultimately have "\<lceil>1 / \<bar>x\<bar>\<rceil> \<le> 2 ^ bit_length ?m" by linarith
  then have "1 / \<bar>x\<bar> \<le> 2 ^ bit_length ?m"
    by (simp add: ceiling_le_iff)
  then have "1 / 2 ^ bit_length ?m \<le> \<bar>x\<bar>"
    using x(1) by (simp add: field_simps)
  moreover have "exponent x = - int (bit_length ?m)"
    using False by (simp add: exponent_def)
  ultimately show ?thesis by (auto simp: pow2_def)
qed

lemma round_half_even_ge_floor: "\<lfloor>x\<rfloor> \<le> round_half_even x"
  by (simp add: round_half_even_def Let_def)

lemma round_double_pos:
  assumes "0 < x"
  shows "0 < round_double x"
proof -
  let ?u = "pow2 (exponent x - 52)"
  have u: "0 < ?u" by (rule pow2_pos)
  have "?u \<le> pow2 (exponent x)" by (rule pow2_mono) simp
  also have "\<dots> \<le> x" using pow2_exponent_le [of x] assms by simp
  finally have "1 \<le> x / ?u" using u by simp
  then have "1 \<le> \<lfloor>x / ?u\<rfloor>" by simp
  then have "1 \<le> round_half_even (x / ?u)"
    using round_half_even_ge_floor [of "x / ?u"] by linarith
  then have "0 < real_of_int (round_half_even (x / ?u)) * ?u" using u by simp
  then show ?thesis using assms by (simp add: round_double_def)
qed

lemma round_double_nonneg: "0 \<le> x \<Longrightarrow> 0 \<le> round_double x"
  using round_double_pos [of x] by (cases "x = 0") (simp_all add: round_double_def less_eq_real_def)

text \<open>
  The exponent brackets its argument from above as well, and rounding moves a number by at
  most half the distance between the doubles around it.
\<close>

lemma exponent_upper:
  assumes "x \<noteq> 0"
  shows "\<bar>x\<bar> < pow2 (exponent x + 1)"
proof (cases "1 \<le> \<bar>x\<bar>")
  case True
  let ?n = "nat \<lfloor>\<bar>x\<bar>\<rfloor>"
  have "?n < 2 ^ bit_length ?n" by (rule bit_length_upper)
  then have "real ?n + 1 \<le> 2 ^ bit_length ?n"
    by (metis Suc_leI of_nat_Suc of_nat_le_iff of_nat_numeral of_nat_power add.commute)
  moreover have "\<bar>x\<bar> < real ?n + 1" using True by linarith
  ultimately have "\<bar>x\<bar> < 2 ^ bit_length ?n" by linarith
  moreover have "exponent x + 1 = int (bit_length ?n)" using True by (simp add: exponent_def)
  ultimately show ?thesis by (simp add: pow2_def)
next
  case False
  let ?y = "1 / \<bar>x\<bar>"
  let ?m = "nat (\<lceil>?y\<rceil> - 1)"
  have x: "0 < \<bar>x\<bar>" "\<bar>x\<bar> < 1" using assms False by simp_all
  then have "1 < ?y" by simp
  then have c: "1 < \<lceil>?y\<rceil>" by linarith
  then have m: "0 < ?m" by simp
  then have k: "0 < bit_length ?m" by (subst bit_length.simps) simp
  have "2 ^ (bit_length ?m - 1) \<le> ?m" using m by (rule bit_length_lower)
  then have "(2::real) ^ (bit_length ?m - 1) \<le> real ?m"
    by (metis of_nat_le_iff of_nat_numeral of_nat_power)
  also have "real ?m = real_of_int (\<lceil>?y\<rceil> - 1)"
  proof -
    have "int ?m = \<lceil>?y\<rceil> - 1" using c by linarith
    then show ?thesis by (metis of_int_of_nat_eq)
  qed
  also have "\<dots> < ?y" by linarith
  finally have "(2::real) ^ (bit_length ?m - 1) < 1 / \<bar>x\<bar>" .
  then have lt: "\<bar>x\<bar> < 1 / 2 ^ (bit_length ?m - 1)"
    using x(1) by (simp add: field_simps)
  have e: "exponent x + 1 = - int (bit_length ?m - 1)"
    using False k by (simp add: exponent_def)
  show ?thesis
  proof (cases "bit_length ?m = 1")
    case True
    then show ?thesis using lt e by (simp add: pow2_def)
  next
    case False
    then have neg: "\<not> 0 \<le> exponent x + 1" using e k by linarith
    have p: "pow2 (exponent x + 1) = 1 / 2 ^ nat (- (exponent x + 1))"
      using neg unfolding pow2_def by (rule if_not_P)
    have n: "nat (- (exponent x + 1)) = bit_length ?m - 1" unfolding e by simp
    show ?thesis unfolding p n by (rule lt)
  qed
qed

lemma round_half_even_error: "\<bar>real_of_int (round_half_even y) - y\<bar> \<le> 1 / 2"
  unfolding round_half_even_def Let_def by (auto; linarith)

lemma round_double_error: "\<bar>round_double x - x\<bar> \<le> pow2 (exponent x - 52) / 2"
proof (cases "x = 0")
  case True
  then show ?thesis using pow2_pos [of "exponent x - 52"] by (simp add: round_double_def)
next
  case False
  let ?u = "pow2 (exponent x - 52)"
  have u: "0 < ?u" by (rule pow2_pos)
  have "round_double x - x = (real_of_int (round_half_even (x / ?u)) - x / ?u) * ?u"
    using False u by (simp add: round_double_def field_simps)
  then have "\<bar>round_double x - x\<bar> = \<bar>real_of_int (round_half_even (x / ?u)) - x / ?u\<bar> * ?u"
    using u by (simp add: abs_mult)
  also have "\<dots> \<le> 1 / 2 * ?u"
    using round_half_even_error [of "x / ?u"] u by (intro mult_right_mono) simp_all
  finally show ?thesis by simp
qed

lemma fsum_nonneg:
  assumes "\<forall>x\<in>set xs. 0 \<le> x"
  shows "0 \<le> fsum xs"
proof -
  have "0 \<le> a \<Longrightarrow> \<forall>x\<in>set ys. 0 \<le> x \<Longrightarrow> 0 \<le> foldl fadd a ys" for a ys
    by (induction ys arbitrary: a) (simp_all add: fadd_def round_double_nonneg)
  then show ?thesis using assms by (simp add: fsum_def)
qed

lemma fsum_zeros: "\<forall>x\<in>set xs. x = 0 \<Longrightarrow> fsum xs = 0"
  unfolding fsum_def by (induction xs) (simp_all add: fadd_def round_double_def)

subsection \<open>The outcomes of the efficiency computation in doubles\<close>

lemma efficiency_double_unfold:
  assumes "agents w \<noteq> []"
  shows "get_parallel_efficiency_double w =
    (if fsum (map duration (agents w)) = 0 then Inr 0
     else if fmul (Max (set (map duration (agents w)))) (real (length (agents w))) = 0
       then Inl ZeroDivisionError
     else Inr (fmul (round_double (fsum (map duration (agents w)) /
                 fmul (Max (set (map duration (agents w)))) (real (length (agents w))))) 100))"
proof -
  have "py_max (map duration (agents w)) = Inr (Max (set (map duration (agents w))))"
    using assms by (simp add: py_max_eq)
  then show ?thesis
    using assms by (simp add: get_parallel_efficiency_double_def fdiv_def Let_def)
qed

lemma efficiency_double_divisor:
  assumes ne: "agents w \<noteq> []" and nonneg: "\<forall>m\<in>set (agents w). 0 \<le> duration m"
    and total: "fsum (map duration (agents w)) \<noteq> 0"
  shows "0 < fmul (Max (set (map duration (agents w)))) (real (length (agents w)))"
proof -
  let ?ds = "map duration (agents w)"
  have "\<not> (\<forall>x\<in>set ?ds. x = 0)" using total fsum_zeros [of ?ds] by blast
  then obtain d where d: "d \<in> set ?ds" "d \<noteq> 0" by blast
  then have "0 < d" using nonneg by auto
  moreover have "d \<le> Max (set ?ds)" using d(1) by simp
  ultimately have "0 < Max (set ?ds) * real (length (agents w))" using ne by simp
  then show ?thesis unfolding fmul_def by (rule round_double_pos)
qed

lemma efficiency_double_defined:
  assumes nonneg: "\<forall>m\<in>set (agents w). 0 \<le> duration m"
  shows "\<exists>e. get_parallel_efficiency_double w = Inr e \<and> 0 \<le> e"
proof (cases "agents w = []")
  case True
  then show ?thesis by (simp add: get_parallel_efficiency_double_def)
next
  case ne: False
  let ?ds = "map duration (agents w)"
  let ?den = "fmul (Max (set ?ds)) (real (length (agents w)))"
  show ?thesis
  proof (cases "fsum ?ds = 0")
    case True
    then show ?thesis using ne by (simp add: efficiency_double_unfold)
  next
    case False
    have total: "0 \<le> fsum ?ds" using nonneg by (intro fsum_nonneg) auto
    have den: "0 < ?den" using ne nonneg False by (rule efficiency_double_divisor)
    then have "0 \<le> fsum ?ds / ?den" using total by simp
    then have "0 \<le> round_double (fsum ?ds / ?den)" by (rule round_double_nonneg)
    then have "0 \<le> fmul (round_double (fsum ?ds / ?den)) 100"
      unfolding fmul_def by (intro round_double_nonneg) simp
    moreover have "get_parallel_efficiency_double w =
        Inr (fmul (round_double (fsum ?ds / ?den)) 100)"
      using ne False den by (simp add: efficiency_double_unfold)
    ultimately show ?thesis by simp
  qed
qed

lemma efficiency_double_error:
  assumes "get_parallel_efficiency_double w = Inl e"
  shows "e = ZeroDivisionError"
proof (cases "agents w = []")
  case True
  then show ?thesis using assms by (simp add: get_parallel_efficiency_double_def)
next
  case False
  show ?thesis
    using assms unfolding efficiency_double_unfold [OF False] by (simp split: if_splits)
qed

text \<open>
  The formula, the zero cases and the single record are stated in the next section for
  exact arithmetic. The same facts hold for the rounded computation.
\<close>

lemma parallel_efficiency_formula_double:
  assumes "agents w \<noteq> []" "\<forall>m\<in>set (agents w). 0 \<le> duration m"
    "fsum (map duration (agents w)) \<noteq> 0"
  shows "get_parallel_efficiency_double w =
    Inr (fmul (round_double (fsum (map duration (agents w)) /
           fmul (Max (set (map duration (agents w)))) (real (length (agents w))))) 100)"
  using assms efficiency_double_divisor [OF assms] by (simp add: efficiency_double_unfold)

lemma parallel_efficiency_zero_cases_double:
  "(agents w = [] \<longrightarrow> get_parallel_efficiency_double w = Inr 0) \<and>
   (fsum (map duration (agents w)) = 0 \<longrightarrow> get_parallel_efficiency_double w = Inr 0) \<and>
   ((\<forall>m\<in>set (agents w). 0 \<le> duration m) \<longrightarrow>
      get_parallel_efficiency_double w \<noteq> Inl ZeroDivisionError)"
proof (intro conjI impI)
  assume "agents w = []"
  then show "get_parallel_efficiency_double w = Inr 0"
    by (simp add: get_parallel_efficiency_double_def)
next
  assume total: "fsum (map duration (agents w)) = 0"
  show "get_parallel_efficiency_double w = Inr 0"
  proof (cases "agents w = []")
    case True
    then show ?thesis by (simp add: get_parallel_efficiency_double_def)
  next
    case False
    then show ?thesis using total by (simp add: efficiency_double_unfold)
  qed
next
  assume "\<forall>m\<in>set (agents w). 0 \<le> duration m"
  then show "get_parallel_efficiency_double w \<noteq> Inl ZeroDivisionError"
    using efficiency_double_defined [of w] by auto
qed

lemmas double_defs =
  bit_length.simps round_double_def exponent_def pow2_def round_half_even_def Let_def

lemma single_record_efficiency_double:
  assumes "agents w = [m]" "0 < duration m" "round_double (duration m) = duration m"
  shows "get_parallel_efficiency_double w = Inr 100"
proof -
  have one: "round_double 1 = 1" by (simp add: double_defs)
  have hundred: "round_double 100 = 100" by (simp add: double_defs)
  have ne: "agents w \<noteq> []" using assms(1) by simp
  have total: "fsum (map duration (agents w)) = duration m"
    using assms(1,3) by (simp add: fsum_def fadd_def)
  have den: "fmul (Max (set (map duration (agents w)))) (real (length (agents w))) = duration m"
    using assms(1,3) by (simp add: fmul_def)
  have q: "round_double (duration m / duration m) = 1" using assms(2) one by simp
  have e: "fmul 1 100 = 100" using hundred by (simp add: fmul_def)
  show ?thesis
    unfolding efficiency_double_unfold [OF ne] total den q using assms(2) e by simp
qed

subsection \<open>Serialising the workflows of a collector\<close>

lemma comprehension_Inr:
  "\<forall>x\<in>set xs. \<exists>y. f x = Inr y \<Longrightarrow>
   \<exists>ys. comprehension f xs = Inr ys \<and> map Inr ys = map f xs"
proof (induction xs)
  case Nil
  then show ?case by simp
next
  case (Cons x xs)
  then obtain y where y: "f x = Inr y" by auto
  from Cons obtain ys where ys: "comprehension f xs = Inr ys" "map Inr ys = map f xs" by auto
  have "comprehension f (x # xs) = Inr (y # ys)" using y ys by simp
  moreover have "map Inr (y # ys) = map f (x # xs)" using y ys by simp
  ultimately show ?case by blast
qed

lemma wf_to_dict_Inr:
  assumes "get_parallel_efficiency_double w \<noteq> Inl ZeroDivisionError"
  shows "\<exists>d. wf_to_dict isoformat w = Inr d"
proof (cases "get_parallel_efficiency_double w")
  case (Inl e)
  then show ?thesis using assms efficiency_double_error [OF Inl] by simp
next
  case (Inr eff)
  then show ?thesis by (simp add: wf_to_dict_def)
qed

text \<open>
  Where no registered workflow has a negative duration among its records,
  \<^verbatim>\<open>get_summary\<close> returns its dictionary: the number of workflows, the number of records
  over all of them, the sum of their durations and their serialised forms in the order of
  the list.
\<close>

lemma get_summary_when_defined:
  assumes "\<forall>w\<in>set (workflows c). \<forall>m\<in>set (agents w). 0 \<le> duration m"
  shows "\<exists>s ds. get_summary isoformat c = (Inr s, c) \<and>
         field ''total_workflows'' s = Some (JInt (int (length (workflows c)))) \<and>
         field ''total_agents_executed'' s =
           Some (JInt (sum_list (map (\<lambda>w. int (length (agents w))) (workflows c)))) \<and>
         field ''total_time'' s =
           Some (if workflows c = [] then JInt 0
                 else JFloat (fsum (map wf_duration (workflows c)))) \<and>
         field ''workflows'' s = Some (JList ds) \<and>
         map Inr ds = map (wf_to_dict isoformat) (workflows c)"
proof -
  have "\<forall>w\<in>set (workflows c). get_parallel_efficiency_double w \<noteq> Inl ZeroDivisionError"
    using assms efficiency_double_defined by fastforce
  then have "\<forall>w\<in>set (workflows c). \<exists>d. wf_to_dict isoformat w = Inr d"
    by (simp add: wf_to_dict_Inr)
  then obtain ds where ds: "comprehension (wf_to_dict isoformat) (workflows c) = Inr ds"
    "map Inr ds = map (wf_to_dict isoformat) (workflows c)"
    using comprehension_Inr [of "workflows c" "wf_to_dict isoformat"] by blast
  let ?s = "JDict
           [(''total_workflows'', JInt (int (length (workflows c)))),
            (''total_agents_executed'',
               JInt (sum_list (map (\<lambda>w. int (length (agents w))) (workflows c)))),
            (''total_time'',
               (if workflows c = [] then JInt 0
                else JFloat (fsum (map wf_duration (workflows c))))),
            (''workflows'', JList ds)]"
  have "get_summary isoformat c = (Inr ?s, c)" using ds(1) by (simp add: get_summary_def)
  moreover have "field ''total_workflows'' ?s = Some (JInt (int (length (workflows c))))"
    by simp
  moreover have "field ''total_agents_executed'' ?s =
      Some (JInt (sum_list (map (\<lambda>w. int (length (agents w))) (workflows c))))"
    by simp
  moreover have "field ''total_time'' ?s =
      Some (if workflows c = [] then JInt 0
            else JFloat (fsum (map wf_duration (workflows c))))"
    by simp
  moreover have "field ''workflows'' ?s = Some (JList ds)"
    by simp
  ultimately show ?thesis using ds(2) by blast
qed

lemmas fixture_defs =
  sample_workflow_def sample_agent_def add_agent_metrics_def create_workflow_def

section \<open>The claims\<close>





text \<open>
  C6. For every workflow with exactly one record, whose duration is positive,
  \<^verbatim>\<open>get_parallel_efficiency\<close> returns exactly 100.
\<close>

theorem single_record_efficiency:
  "agents w = [m] \<Longrightarrow> 0 < duration m \<Longrightarrow> get_parallel_efficiency w = Inr 100"
  by (simp add: efficiency_unfold)

theorem single_record_efficiency_witness:
  "agents (sample_workflow [sample_agent 2 0 0]) = [sample_agent 2 0 0] \<and>
   0 < duration (sample_agent 2 0 0) \<and>
   get_parallel_efficiency (sample_workflow [sample_agent 2 0 0]) = Inr 100"
proof -
  have a: "agents (sample_workflow [sample_agent 2 0 0]) = [sample_agent 2 0 0]"
    by (simp add: fixture_defs)
  have d: "0 < duration (sample_agent 2 0 0)" by (simp add: sample_agent_def)
  show ?thesis using a d single_record_efficiency [OF a d] by simp
qed




text \<open>
  C3 (as amended). For every \<^verbatim>\<open>ExecutionMetrics\<close> whose \<^verbatim>\<open>end_time\<close> is set,
  \<^verbatim>\<open>calculate_duration\<close> stores and returns \<^verbatim>\<open>end_time - start_time\<close> in seconds. Nothing
  is clamped: the stored duration is non-negative exactly when \<^verbatim>\<open>end_time\<close> is not earlier
  than \<^verbatim>\<open>start_time\<close>, and negative otherwise.
\<close>

theorem calculate_duration_difference:
  "end_time m = Some e \<Longrightarrow>
   duration (snd (calculate_duration m)) =
     (real_of_int e - real_of_int (start_time m)) / 1000000 \<and>
   fst (calculate_duration m) = duration (snd (calculate_duration m)) \<and>
   (0 \<le> duration (snd (calculate_duration m)) \<longleftrightarrow> start_time m \<le> e) \<and>
   (e < start_time m \<longrightarrow> duration (snd (calculate_duration m)) < 0)"
  by (simp add: calculate_duration_def total_seconds_def)

theorem calculate_duration_difference_witness:
  "end_time (sample_agent 0 0 0) = Some 2000000 \<and>
   duration (snd (calculate_duration (sample_agent 0 0 0))) = 2 \<and>
   fst (calculate_duration (sample_agent 0 0 0)) = 2 \<and>
   end_time backwards_agent = Some 3000000 \<and>
   duration (snd (calculate_duration backwards_agent)) < 0"
  using calculate_duration_difference [of "sample_agent 0 0 0" 2000000]
    calculate_duration_difference [of backwards_agent 3000000]
  by (simp add: sample_agent_def backwards_agent_def)

text \<open>
  C3 as stated fails: for a record that ends two seconds before it starts the stored
  duration is \<open>-2\<close>, not \<open>0\<close>.
\<close>

theorem calculate_duration_negative:
  "end_time backwards_agent = Some 3000000 \<and>
   start_time backwards_agent = 5000000 \<and>
   duration (snd (calculate_duration backwards_agent)) = - 2 \<and>
   fst (calculate_duration backwards_agent) = - 2 \<and>
   duration (snd (calculate_duration backwards_agent)) < 0"
  by (simp add: calculate_duration_def backwards_agent_def total_seconds_def)

text \<open>
  C4 (as amended). \<^verbatim>\<open>add_agent_metrics\<close> has no lifecycle check and no failing branch.
  On a finalized workflow (its \<^verbatim>\<open>end_time\<close> set) it appends the record and adds the
  record's sizes to the totals, as on any other workflow; \<^verbatim>\<open>end_time\<close> and
  \<^verbatim>\<open>duration\<close> stay as they are, and the workflow is changed.
\<close>

theorem add_agent_metrics_when_finalized:
  "wf_end_time w = Some e \<Longrightarrow>
   agents (add_agent_metrics w m) = agents w @ [m] \<and>
   total_inputs_size (add_agent_metrics w m) = total_inputs_size w + inputs_size m \<and>
   total_outputs_size (add_agent_metrics w m) = total_outputs_size w + outputs_size m \<and>
   wf_end_time (add_agent_metrics w m) = Some e \<and>
   wf_duration (add_agent_metrics w m) = wf_duration w \<and>
   add_agent_metrics w m \<noteq> w"
proof -
  assume fin: "wf_end_time w = Some e"
  have "length (agents (add_agent_metrics w m)) \<noteq> length (agents w)"
    by (simp add: add_agent_metrics_def)
  then have "add_agent_metrics w m \<noteq> w" by auto
  then show ?thesis using fin by (simp add: add_agent_metrics_def)
qed

theorem add_agent_metrics_when_finalized_witness:
  "wf_end_time finalized_workflow = Some 5000000 \<and>
   agents (add_agent_metrics finalized_workflow (sample_agent 1 100 200))
     = [sample_agent 1 100 200] \<and>
   total_inputs_size (add_agent_metrics finalized_workflow (sample_agent 1 100 200)) = 100 \<and>
   total_outputs_size (add_agent_metrics finalized_workflow (sample_agent 1 100 200)) = 200 \<and>
   wf_end_time (add_agent_metrics finalized_workflow (sample_agent 1 100 200)) = Some 5000000"
proof -
  have fin: "wf_end_time finalized_workflow = Some 5000000"
    by (simp add: finalized_workflow_def finalize_workflow_def finalize_def Let_def)
  have "agents finalized_workflow = []" "total_inputs_size finalized_workflow = 0"
    "total_outputs_size finalized_workflow = 0"
    by (simp_all add: finalized_workflow_def finalize_workflow_def finalize_def
        create_workflow_def Let_def)
  then show ?thesis
    using fin add_agent_metrics_when_finalized [OF fin, of "sample_agent 1 100 200"]
    by (simp add: sample_agent_def)
qed

text \<open>
  C4 as stated fails: a workflow finalized by \<^verbatim>\<open>finalize_workflow\<close> accepts a further
  record, and is not left unchanged.
\<close>

theorem add_after_finalize_appends:
  "wf_end_time finalized_workflow = Some 5000000 \<and>
   agents finalized_workflow = [] \<and>
   agents (add_agent_metrics finalized_workflow (sample_agent 1 100 200))
     = [sample_agent 1 100 200] \<and>
   total_inputs_size (add_agent_metrics finalized_workflow (sample_agent 1 100 200)) = 100 \<and>
   add_agent_metrics finalized_workflow (sample_agent 1 100 200) \<noteq> finalized_workflow"
  by (simp add: finalized_workflow_def finalize_workflow_def finalize_def create_workflow_def
      add_agent_metrics_def sample_agent_def Let_def)

text \<open>
  C5. Starting from the workflow returned by \<^verbatim>\<open>create_workflow\<close>, after any number of
  \<^verbatim>\<open>add_agent_metrics\<close> calls the list of records is the list of the records added, in
  call order, \<^verbatim>\<open>total_inputs_size\<close> is the sum of \<^verbatim>\<open>inputs_size\<close> over the records
  and \<^verbatim>\<open>total_outputs_size\<close> the sum of \<^verbatim>\<open>outputs_size\<close>. In particular, input
  sizes 100, 200, 300 and output sizes 200, 400, 600 give the totals 600 and 1200.
\<close>

theorem totals_equal_sums:
  "agents (foldl add_agent_metrics (create_workflow now name) ms) = ms \<and>
   total_inputs_size (foldl add_agent_metrics (create_workflow now name) ms) =
     sum_list (map inputs_size (agents (foldl add_agent_metrics (create_workflow now name) ms))) \<and>
   total_outputs_size (foldl add_agent_metrics (create_workflow now name) ms) =
     sum_list (map outputs_size (agents (foldl add_agent_metrics (create_workflow now name) ms))) \<and>
   (map inputs_size ms = [100, 200, 300] \<and> map outputs_size ms = [200, 400, 600] \<longrightarrow>
      total_inputs_size (foldl add_agent_metrics (create_workflow now name) ms) = 600 \<and>
      total_outputs_size (foldl add_agent_metrics (create_workflow now name) ms) = 1200)"
  by (simp add: foldl_add_agent_metrics create_workflow_def)

theorem totals_equal_sums_witness:
  "map inputs_size [sample_agent 1 100 200, sample_agent 1 200 400, sample_agent 1 300 600]
     = [100, 200, 300] \<and>
   map outputs_size [sample_agent 1 100 200, sample_agent 1 200 400, sample_agent 1 300 600]
     = [200, 400, 600] \<and>
   total_inputs_size
     (sample_workflow [sample_agent 1 100 200, sample_agent 1 200 400, sample_agent 1 300 600])
     = 600 \<and>
   total_outputs_size
     (sample_workflow [sample_agent 1 100 200, sample_agent 1 200 400, sample_agent 1 300 600])
     = 1200"
  using totals_equal_sums [of 0 "''Test Workflow''"
      "[sample_agent 1 100 200, sample_agent 1 200 400, sample_agent 1 300 600]"]
  by (simp add: sample_workflow_def sample_agent_def)

text \<open>
  C8. For every workflow that is not finalized, \<^verbatim>\<open>finalize_workflow\<close> sets its
  \<^verbatim>\<open>end_time\<close> to the clock reading, sets its duration to \<^verbatim>\<open>end_time - start_time\<close> in
  seconds, leaves its other fields alone and appends it to the collector's list. Over any
  sequence of calls the list grows at its end only, in the order of the calls.
\<close>

theorem finalize_workflow_appends:
  "(wf_end_time w = None \<longrightarrow>
      wf_end_time (snd (finalize_workflow now c w)) = Some now \<and>
      wf_duration (snd (finalize_workflow now c w)) =
        (real_of_int now - real_of_int (wf_start_time w)) / 1000000 \<and>
      snd (finalize_workflow now c w) =
        w\<lparr>wf_end_time := Some now,
          wf_duration := (real_of_int now - real_of_int (wf_start_time w)) / 1000000\<rparr> \<and>
      workflows (fst (finalize_workflow now c w)) =
        workflows c @ [snd (finalize_workflow now c w)]) \<and>
   workflows (foldl (\<lambda>c (now, w). fst (finalize_workflow now c w)) c nws) =
     workflows c @ map (\<lambda>(now, w). snd (finalize_workflow now c w)) nws"
proof (rule conjI)
  show "workflows (foldl (\<lambda>c (now, w). fst (finalize_workflow now c w)) c nws) =
     workflows c @ map (\<lambda>(now, w). snd (finalize_workflow now c w)) nws"
    by (rule foldl_finalize_workflow)
qed (simp add: finalize_workflow_result total_seconds_def)

theorem finalize_workflow_appends_witness:
  "wf_end_time (create_workflow 1000000 ''Test'') = None \<and>
   wf_end_time (snd (finalize_workflow 5000000 init_collector (create_workflow 1000000 ''Test'')))
     = Some 5000000 \<and>
   wf_duration (snd (finalize_workflow 5000000 init_collector (create_workflow 1000000 ''Test'')))
     = 4 \<and>
   workflows (fst (finalize_workflow 5000000 init_collector (create_workflow 1000000 ''Test'')))
     = [snd (finalize_workflow 5000000 init_collector (create_workflow 1000000 ''Test''))]"
  using finalize_workflow_appends [of "create_workflow 1000000 ''Test''" 5000000 init_collector "[]"]
  by (simp add: create_workflow_def init_collector_def)

text \<open>
  C7. \<^verbatim>\<open>get_summary\<close> is to return, for every state of the collector, the dictionary of
  the number of workflows, the number of records, the total time and the serialised
  workflows. It does not at this state: the collector holds one workflow whose two records
  have durations \<open>0\<close> and \<open>-1\<close>. Their maximum is \<open>0\<close> and their sum is \<open>-1\<close>, so the
  test \<^verbatim>\<open>total_agent_duration == 0\<close> lets the computation through to the division by
  \<^verbatim>\<open>max_agent_duration * len(self.agents)\<close>, which is \<open>0\<close>; serialising the workflow
  raises \<^verbatim>\<open>ZeroDivisionError\<close> and \<^verbatim>\<open>get_summary\<close> returns no dictionary.
\<close>

theorem get_summary_raises:
  "map duration (agents (hd (workflows failing_collector))) = [0, - 1] \<and>
   length (workflows failing_collector) = 1 \<and>
   get_parallel_efficiency_double (hd (workflows failing_collector)) = Inl ZeroDivisionError \<and>
   get_parallel_efficiency (hd (workflows failing_collector)) = Inl ZeroDivisionError \<and>
   fst (get_summary no_format failing_collector) = Inl ZeroDivisionError"
  by (simp add: failing_collector_def finalize_workflow_result
      init_collector_def fixture_defs get_summary_def wf_to_dict_def
      get_parallel_efficiency_def py_truediv_def
      get_parallel_efficiency_double_def py_max_def fsum_def fadd_def fmul_def fdiv_def
      double_defs)

text \<open>
  C10. \<^verbatim>\<open>get_summary\<close> leaves the collector as it is, and a second call on the collector
  left by the first yields the same outcome as the first.
\<close>

theorem get_summary_idempotent:
  "snd (get_summary isoformat c) = c \<and>
   fst (get_summary isoformat (snd (get_summary isoformat c))) = fst (get_summary isoformat c)"
  by (simp add: get_summary_def)

theorem get_summary_idempotent_witness:
  "snd (get_summary no_format sample_collector) = sample_collector \<and>
   fst (get_summary no_format (snd (get_summary no_format sample_collector))) =
     fst (get_summary no_format sample_collector) \<and>
   fst (get_summary no_format (snd (get_summary no_format failing_collector))) =
     Inl ZeroDivisionError"
  using get_summary_idempotent [of no_format sample_collector]
    get_summary_idempotent [of no_format failing_collector]
  by (simp add: failing_collector_def finalize_workflow_result
      init_collector_def fixture_defs get_summary_def wf_to_dict_def
      get_parallel_efficiency_double_def py_max_def fsum_def fadd_def fmul_def fdiv_def
      double_defs)

end
